theory Spec2Isabelle
  imports Main "HOL-Library.Multiset"
begin

section \<open>Python values used by \<open>app.py\<close>\<close>

text \<open>
  Item ids, counts and category components are Python integers (\<open>int\<close>). A category is
  the pair \<open>(x, y)\<close>; a geoBuffer entry is the triple \<open>(x, y, z)\<close>.

  A Python \<open>dict\<close> keeps its keys in insertion order, and that order is visible in the
  aggregator (it fixes the order of entries with the same sort key). A dict is therefore an
  association list in insertion order: \<open>d[k] = v\<close> replaces the value in place when the
  key is present and appends the pair otherwise.
\<close>

type_synonym category = "int \<times> int"
type_synonym geobuffer = "int \<times> int \<times> int"
type_synonym ('k, 'v) pydict = "('k \<times> 'v) list"

datatype py_error = KeyError | IndexError | IOError

text \<open>\<open>d[k] = v\<close>\<close>

fun dict_set :: "'k \<Rightarrow> 'v \<Rightarrow> ('k, 'v) pydict \<Rightarrow> ('k, 'v) pydict" where
  "dict_set k v [] = [(k, v)]"
| "dict_set k v ((k', v') # d) = (if k' = k then (k, v) # d else (k', v') # dict_set k v d)"

text \<open>\<open>d.get(k, default)\<close>\<close>

definition dict_get :: "('k, 'v) pydict \<Rightarrow> 'k \<Rightarrow> 'v \<Rightarrow> 'v" where
  "dict_get d k dflt = (case map_of d k of None \<Rightarrow> dflt | Some v \<Rightarrow> v)"

text \<open>\<open>k in d\<close>\<close>

definition dict_has :: "('k, 'v) pydict \<Rightarrow> 'k \<Rightarrow> bool" where
  "dict_has d k = (map_of d k \<noteq> None)"

text \<open>The keys of a dict, in iteration order.\<close>

definition dict_keys :: "('k, 'v) pydict \<Rightarrow> 'k list" where
  "dict_keys d = map fst d"

text \<open>
  \<open>xs[i:j]\<close> with Python's treatment of negative and out-of-range bounds: a negative
  bound counts from the end and is then clipped to \<open>0\<close>, a bound beyond the end is
  clipped to the length, and an empty range gives the empty list.
\<close>

definition py_slice :: "'a list \<Rightarrow> int \<Rightarrow> int \<Rightarrow> 'a list" where
  "py_slice xs i j =
     (let n = int (length xs);
          lo = (if i < 0 then max (i + n) 0 else min i n);
          hi = (if j < 0 then max (j + n) 0 else min j n)
      in take (nat (hi - lo)) (drop (nat lo) xs))"

text \<open>\<open>range(0, n)\<close>\<close>

definition py_range :: "int \<Rightarrow> int list" where
  "py_range n = map int [0..<nat n]"


section \<open>The window analyzer: \<open>analyze_chunks\<close>\<close>

text \<open>
  The innermost statement of the counting loop:
  \<open>if item in conv_map: freq[item] = freq.get(item, 0) + 1\<close>.
\<close>

definition freq_item :: "(int, category) pydict \<Rightarrow> (int, int) pydict \<Rightarrow> int \<Rightarrow> (int, int) pydict" where
  "freq_item conv_map freq item =
     (if dict_has conv_map item then dict_set item (dict_get freq item 0 + 1) freq else freq)"

text \<open>\<open>for row in window: for item in row: ...\<close>, starting from \<open>freq = {}\<close>.\<close>

definition window_freq :: "(int, category) pydict \<Rightarrow> int list list \<Rightarrow> (int, int) pydict" where
  "window_freq conv_map window = foldl (\<lambda>freq row. foldl (freq_item conv_map) freq row) [] window"

text \<open>
  \<open>for item_id, count in freq.items(): if count > max_counts[item_id]: max_counts[item_id] = count\<close>.
  The subscript \<open>max_counts[item_id]\<close> raises \<open>KeyError\<close> on a missing key. (The source's
  variable \<open>count\<close> is written \<open>cnt\<close>: \<open>count\<close> is a constant of the multiset library.)
\<close>

fun update_max :: "(int, int) pydict \<Rightarrow> (int \<times> int) list \<Rightarrow> py_error + (int, int) pydict" where
  "update_max max_counts [] = Inr max_counts"
| "update_max max_counts ((item_id, cnt) # items) =
     (case map_of max_counts item_id of
        None \<Rightarrow> Inl KeyError
      | Some m \<Rightarrow>
          update_max (if cnt > m then dict_set item_id cnt max_counts else max_counts) items)"

text \<open>The loop over the window start positions.\<close>

fun slide :: "(int, category) pydict \<Rightarrow> int list list \<Rightarrow> int \<Rightarrow> (int, int) pydict \<Rightarrow> int list
    \<Rightarrow> py_error + (int, int) pydict" where
  "slide conv_map level_rows chunk_size max_counts [] = Inr max_counts"
| "slide conv_map level_rows chunk_size max_counts (start # starts) =
     (let window = py_slice level_rows start (start + chunk_size)
      in case update_max max_counts (window_freq conv_map window) of
           Inl e \<Rightarrow> Inl e
         | Inr max_counts' \<Rightarrow> slide conv_map level_rows chunk_size max_counts' starts)"

text \<open>\<open>{item_id: 0 for item_id in conv_map}\<close>\<close>

definition zero_counts :: "(int, category) pydict \<Rightarrow> (int, int) pydict" where
  "zero_counts conv_map = foldl (\<lambda>d item_id. dict_set item_id 0 d) [] (dict_keys conv_map)"

definition analyze_chunks :: "int list list \<Rightarrow> int \<Rightarrow> (int, category) pydict \<Rightarrow> py_error + (int, int) pydict" where
  "analyze_chunks level_rows chunk_size conv_map =
     (let max_counts = zero_counts conv_map;
          total_rows = int (length level_rows)
      in slide conv_map level_rows chunk_size max_counts (py_range (total_rows - chunk_size + 1)))"


section \<open>The aggregator: \<open>generate_geobuffer_list\<close>\<close>

text \<open>
  One iteration of \<open>for level_id, (x, y) in conv_map.items()\<close>:
  \<open>count = max_counts.get(level_id, 0)\<close>, and for a positive count
  \<open>geo_dict[(x, y)] = geo_dict.get((x, y), 0) + count\<close>.
\<close>

definition geo_step :: "(int, int) pydict \<Rightarrow> (category, int) pydict \<Rightarrow> int \<times> category
    \<Rightarrow> (category, int) pydict" where
  "geo_step max_counts geo_dict entry =
     (case entry of (level_id, (x, y)) \<Rightarrow>
        (let cnt = dict_get max_counts level_id 0
         in if cnt > 0 then dict_set (x, y) (dict_get geo_dict (x, y) 0 + cnt) geo_dict
            else geo_dict))"

definition geo_dict_of :: "(int, category) pydict \<Rightarrow> (int, int) pydict \<Rightarrow> (category, int) pydict" where
  "geo_dict_of conv_map max_counts = foldl (geo_step max_counts) [] conv_map"

text \<open>\<open>[(x, y, z) for (x, y), z in geo_dict.items()]\<close>\<close>

definition geo_entries :: "(category, int) pydict \<Rightarrow> geobuffer list" where
  "geo_entries geo_dict = map (\<lambda>((x, y), z). (x, y, z)) geo_dict"

text \<open>
  \<open>geobuffers.sort(key=lambda tup: tup[0])\<close>. Python's \<open>list.sort\<close> is a stable sort,
  and the result of a stable sort is determined by the list and the key, so the stable
  insertion sort \<open>sort_key\<close> returns the same list.
\<close>

definition generate_geobuffer_list :: "(int, category) pydict \<Rightarrow> (int, int) pydict \<Rightarrow> geobuffer list" where
  "generate_geobuffer_list conv_map max_counts =
     (let geo_dict = geo_dict_of conv_map max_counts;
          geobuffers = geo_entries geo_dict
      in sort_key (\<lambda>tup. fst tup) geobuffers)"


section \<open>Text: \<open>str.strip\<close>, \<open>str.lower\<close>, \<open>str.split\<close>, \<open>int\<close>\<close>

text \<open>
  A \<open>char\<close> of the model is a character of the decoded text with a code point below 256;
  text with other characters is outside the model. On these characters the functions of
  this section follow CPython 3.11. \<open>is_space\<close> lists the characters that \<open>str.strip()\<close>
  removes: the ASCII white space, the separators \<open>0x1C\<close> to \<open>0x1F\<close>, and \<open>0x85\<close> and
  \<open>0xA0\<close>.
\<close>

definition is_space :: "char \<Rightarrow> bool" where
  "is_space c = (c \<in> set [CHR '' '', CHR 0x09, CHR 0x0A, CHR 0x0B, CHR 0x0C, CHR 0x0D,
                            CHR 0x1C, CHR 0x1D, CHR 0x1E, CHR 0x1F, CHR 0x85, CHR 0xA0])"

text \<open>\<open>s.strip()\<close>\<close>

definition strip :: "string \<Rightarrow> string" where
  "strip s = rev (dropWhile is_space (rev (dropWhile is_space s)))"

text \<open>\<open>s.rstrip(',')\<close>: every trailing comma is removed.\<close>

definition rstrip_comma :: "string \<Rightarrow> string" where
  "rstrip_comma s = rev (dropWhile (\<lambda>c. c = CHR '','') (rev s))"

text \<open>
  \<open>s.lower()\<close>: the letters \<open>A\<close> to \<open>Z\<close> and the capital letters \<open>0xC0\<close> to \<open>0xDE\<close>
  (\<open>0xD7\<close>, the multiplication sign, is no letter) are moved up by 32.
\<close>

definition lower_char :: "char \<Rightarrow> char" where
  "lower_char c =
     (let n = (of_char c :: nat)
      in if (65 \<le> n \<and> n \<le> 90) \<or> (192 \<le> n \<and> n \<le> 222 \<and> n \<noteq> 215) then char_of (n + 32)
         else c)"

definition lower :: "string \<Rightarrow> string" where
  "lower s = map lower_char s"

text \<open>\<open>s.startswith(p)\<close>\<close>

definition startswith :: "string \<Rightarrow> string \<Rightarrow> bool" where
  "startswith s p = (take (length p) s = p)"

text \<open>\<open>s.split(',')\<close>: the empty string splits into one empty token.\<close>

fun split_comma :: "string \<Rightarrow> string list" where
  "split_comma [] = [[]]"
| "split_comma (c # cs) =
     (if c = CHR '','' then [] # split_comma cs
      else (case split_comma cs of
              [] \<Rightarrow> [[c]]
            | t # ts \<Rightarrow> (c # t) # ts))"

text \<open>
  \<open>int(s)\<close> on a string: surrounding white space is skipped, one sign is allowed, then
  decimal digits follow, with single underscores allowed between digits. \<open>None\<close> is the
  \<open>ValueError\<close>. The white space \<open>int\<close> skips is not that of \<open>str.strip()\<close>: it is the
  ASCII white space and \<open>0x85\<close> and \<open>0xA0\<close>, without the separators \<open>0x1C\<close> to \<open>0x1F\<close>, so
  \<open>int('\x1c5')\<close> raises. A text with more than 4300 digits raises too (the default of
  \<open>sys.int_max_str_digits\<close>).
\<close>

definition is_int_space :: "char \<Rightarrow> bool" where
  "is_int_space c = (c \<in> set [CHR '' '', CHR 0x09, CHR 0x0A, CHR 0x0B, CHR 0x0C, CHR 0x0D,
                                CHR 0x85, CHR 0xA0])"

definition int_strip :: "string \<Rightarrow> string" where
  "int_strip s = rev (dropWhile is_int_space (rev (dropWhile is_int_space s)))"

definition int_max_str_digits :: nat where
  "int_max_str_digits = 4300"

definition is_digit :: "char \<Rightarrow> bool" where
  "is_digit c = (let n = (of_char c :: nat) in 48 \<le> n \<and> n \<le> 57)"

definition digit_val :: "char \<Rightarrow> int" where
  "digit_val c = int (of_char c) - 48"

fun parse_digits :: "int \<Rightarrow> bool \<Rightarrow> string \<Rightarrow> int option" where
  "parse_digits acc after_digit [] = (if after_digit then Some acc else None)"
| "parse_digits acc after_digit (c # cs) =
     (if is_digit c then parse_digits (10 * acc + digit_val c) True cs
      else if c = CHR ''_'' \<and> after_digit then parse_digits acc False cs
      else None)"

text \<open>The digits after the sign.\<close>

definition int_body :: "string \<Rightarrow> int option" where
  "int_body cs =
     (if length (filter is_digit cs) > int_max_str_digits then None
      else parse_digits 0 False cs)"

definition py_int :: "string \<Rightarrow> int option" where
  "py_int s =
     (case int_strip s of
        [] \<Rightarrow> None
      | c # cs \<Rightarrow>
          if c = CHR ''-'' then map_option uminus (int_body cs)
          else if c = CHR ''+'' then int_body cs
          else int_body (c # cs))"

text \<open>\<open>[int(val) for val in parts]\<close>: the first failing token raises \<open>ValueError\<close>.\<close>

fun int_all :: "string list \<Rightarrow> int list option" where
  "int_all [] = Some []"
| "int_all (p # ps) =
     (case py_int p of
        None \<Rightarrow> None
      | Some v \<Rightarrow> (case int_all ps of None \<Rightarrow> None | Some vs \<Rightarrow> Some (v # vs)))"

text \<open>\<open>str(n)\<close> for an integer, as the f-string of \<open>write_output\<close> prints it.\<close>

function show_nat :: "nat \<Rightarrow> string" where
  "show_nat n = (if n < 10 then [char_of (48 + n)] else show_nat (n div 10) @ [char_of (48 + n mod 10)])"
  by pat_completeness auto
termination
  by (relation "measure id") auto

definition show_int :: "int \<Rightarrow> string" where
  "show_int i = (if i < 0 then CHR ''-'' # show_nat (nat (- i)) else show_nat (nat i))"


section \<open>The row parser: \<open>parse_level_file\<close>\<close>

text \<open>
  \<open>parts = [p for p in stripped.rstrip(',').split(',') if p != '']\<close>
\<close>

definition parts_of :: "string \<Rightarrow> string list" where
  "parts_of stripped = filter (\<lambda>p. p \<noteq> []) (split_comma (rstrip_comma stripped))"

text \<open>
  The body of \<open>for line in lines\<close>, on the pair of \<open>data_started\<close> and
  \<open>level_rows\<close>. Each \<open>continue\<close> of the source returns the pair as it stands.
\<close>

definition parse_line :: "bool \<times> int list list \<Rightarrow> string \<Rightarrow> bool \<times> int list list" where
  "parse_line st line =
     (case st of (data_started, level_rows) \<Rightarrow>
        (let stripped = strip line in
         if stripped = [] then (data_started, level_rows)
         else if startswith (lower stripped) ''data='' then (True, level_rows)
         else if data_started \<or> CHR '','' \<in> set stripped then
           (let parts = parts_of stripped in
            if length parts \<noteq> 5 then (data_started, level_rows)
            else (case int_all parts of
                    None \<Rightarrow> (data_started, level_rows)
                  | Some row \<Rightarrow> (data_started, level_rows @ [row])))
         else (data_started, level_rows)))"

definition parse_lines :: "string list \<Rightarrow> int list list" where
  "parse_lines lines = snd (foldl parse_line (False, []) lines)"

text \<open>
  The file system is a function from a path to the lines \<open>readlines()\<close> returns, \<open>None\<close>
  when \<open>open\<close> fails; that exception is not caught by \<open>parse_level_file\<close>.
\<close>

definition parse_level_file :: "(string \<Rightarrow> string list option) \<Rightarrow> string \<Rightarrow> py_error + int list list" where
  "parse_level_file fs filepath =
     (case fs filepath of
        None \<Rightarrow> Inl IOError
      | Some lines \<Rightarrow> Inr (parse_lines lines))"


section \<open>The mapping table and the roller override\<close>

text \<open>
  The start-up loop over \<open>conversion_map.json\<close>: every id of a group is mapped to the
  group's category, a later group overwriting an earlier one. A group is the pair of its
  \<open>ids\<close> and its \<open>to\<close>.
\<close>

definition load_conversion_map :: "(int list \<times> category) list \<Rightarrow> (int, category) pydict" where
  "load_conversion_map data =
     foldl (\<lambda>conversion_map entry.
              foldl (\<lambda>m id_val. dict_set id_val (snd entry) m) conversion_map (fst entry))
       [] data"

definition ROLLER_IDS :: "int list" where
  "ROLLER_IDS = [41, 42, 43, 44, 579, 580, 587, 588]"

text \<open>
  An entry of the roller file after \<open>json.load\<close>: \<open>entry.get("name")\<close> is a string or
  absent, \<open>entry.get("to")\<close> is absent, a list of integers, or a value that is not a list.
\<close>

datatype to_value = ToAbsent | ToNotList | ToList "int list"

record roller_entry =
  entry_name :: "string option"
  entry_to :: to_value

text \<open>
  The loop over the two file names: the first file that opens and parses gives
  \<open>rm_data\<close>; a file that fails is skipped, and \<open>rm_data\<close> is \<open>None\<close> when both fail.
\<close>

fun load_rm_data :: "(string \<Rightarrow> roller_entry list option) \<Rightarrow> string list \<Rightarrow> roller_entry list option" where
  "load_rm_data files [] = None"
| "load_rm_data files (fname # fnames) =
     (case files fname of
        Some rm_data \<Rightarrow> Some rm_data
      | None \<Rightarrow> load_rm_data files fnames)"

definition rm_filenames :: "string list" where
  "rm_filenames = [''roller_mappings.json'', ''roller_mapping.json'']"

text \<open>
  The loop \<open>for entry in rm_data\<close>: an entry with no name, an empty name or a \<open>to\<close>
  that is not a list is skipped; \<open>(to[0], to[1])\<close> raises \<open>IndexError\<close> on a shorter list.
\<close>

fun roller_entries :: "(string, category) pydict \<Rightarrow> roller_entry list \<Rightarrow> py_error + (string, category) pydict" where
  "roller_entries roller_mappings [] = Inr roller_mappings"
| "roller_entries roller_mappings (entry # entries) =
     (case (entry_name entry, entry_to entry) of
        (Some name, ToList to) \<Rightarrow>
          if name = [] then roller_entries roller_mappings entries
          else if length to < 2 then Inl IndexError
          else roller_entries (dict_set (strip name) (to ! 0, to ! 1) roller_mappings) entries
      | _ \<Rightarrow> roller_entries roller_mappings entries)"

text \<open>\<open>if rm_data: ...\<close>: nothing is read from a missing or empty \<open>rm_data\<close>.\<close>

definition load_roller_mappings :: "roller_entry list option \<Rightarrow> py_error + (string, category) pydict" where
  "load_roller_mappings rm_data =
     (case rm_data of
        None \<Rightarrow> Inr []
      | Some entries \<Rightarrow> if entries = [] then Inr [] else roller_entries [] entries)"

text \<open>
  \<open>apply_roller_mapping\<close> reads the global \<open>roller_mappings\<close> and updates the global
  \<open>conversion_map\<close>; both are parameters here, and the new \<open>conversion_map\<close> is returned.
\<close>

definition roller_choice :: "(string, category) pydict \<Rightarrow> string \<Rightarrow> category" where
  "roller_choice roller_mappings selection =
     dict_get roller_mappings selection (dict_get roller_mappings ''Default'' (24, 4))"

definition apply_roller_mapping :: "(string, category) pydict \<Rightarrow> string \<Rightarrow> (int, category) pydict
    \<Rightarrow> (int, category) pydict" where
  "apply_roller_mapping roller_mappings selection conversion_map =
     (let mapping = roller_choice roller_mappings selection
      in foldl (\<lambda>m id_val. dict_set id_val mapping m) conversion_map ROLLER_IDS)"

text \<open>
  The module's start-up: the primary table is loaded, the roller file is read, and
  \<open>apply_roller_mapping("Default")\<close> is called once.
\<close>

definition startup :: "(int list \<times> category) list \<Rightarrow> (string \<Rightarrow> roller_entry list option)
    \<Rightarrow> py_error + (string, category) pydict \<times> (int, category) pydict" where
  "startup data files =
     (case load_roller_mappings (load_rm_data files rm_filenames) of
        Inl e \<Rightarrow> Inl e
      | Inr roller_mappings \<Rightarrow>
          Inr (roller_mappings,
               apply_roller_mapping roller_mappings ''Default'' (load_conversion_map data)))"


text \<open>
  An entry the loop of \<open>roller_entries\<close> does not skip: it has a non-empty name and a
  \<open>to\<close> that is a list.
\<close>

definition usable :: "roller_entry \<Rightarrow> bool" where
  "usable entry =
     (case (entry_name entry, entry_to entry) of
        (Some name, ToList to) \<Rightarrow> name \<noteq> []
      | _ \<Rightarrow> False)"


section \<open>The preset, the writer and \<open>run_processing\<close>\<close>

definition PRESET_GEOBUFFER0 :: "geobuffer list" where
  "PRESET_GEOBUFFER0 = [
    (0,0,100),(1,0,20),(2,0,15),(3,0,12),(4,0,5),(5,0,10),(6,0,80),(7,0,15),(8,0,10),(9,0,15),
    (10,0,45),(11,0,30),(12,0,90),(13,0,70),(14,0,120),(30,4,10),(44,4,20),(62,4,5),(64,4,10),
    (70,2,10),(71,2,2),(72,2,10),(73,2,15),(77,5,40),(78,5,50),(80,9,60),(81,9,60),
    (82,9,45),(83,9,45),(84,9,20),(85,9,20),(86,9,60),(87,9,40),(88,9,10),(89,9,40),(90,9,40),
    (91,9,40),(92,9,40),(93,9,40),(94,9,40),(95,9,40),(96,9,40),(97,9,40),(98,9,40),
    (99,9,40),(100,9,40),(101,8,650),(103,10,1),(104,10,2),(105,6,1),(107,10,1),
    (108,6,1),(109,6,1),(112,1,60),(114,10,50),(217,6,10),(218,6,3),(233,9,40),(364,10,1)
  ]"

text \<open>
  \<open>if add_geobuffer0_var.get(): geobuffer_list = PRESET_GEOBUFFER0 + geobuffer_list\<close>
\<close>

definition add_geobuffer0 :: "bool \<Rightarrow> geobuffer list \<Rightarrow> geobuffer list" where
  "add_geobuffer0 enabled geobuffer_list =
     (if enabled then PRESET_GEOBUFFER0 @ geobuffer_list else geobuffer_list)"

text \<open>The line \<open>f"{x},{y},{z}\n"\<close> of one entry.\<close>

definition entry_line :: "geobuffer \<Rightarrow> string" where
  "entry_line e =
     (case e of (x, y, z) \<Rightarrow>
        show_int x @ '','' @ show_int y @ '','' @ show_int z @ [CHR 0x0A])"

text \<open>
  \<open>write_output\<close>: the text written, or \<open>None\<close> when opening or writing the file raises
  (the source then shows the error and returns \<open>False\<close>). Whether a path can be written
  is a parameter.
\<close>

definition write_output :: "(string \<Rightarrow> bool) \<Rightarrow> string \<Rightarrow> geobuffer list \<Rightarrow> string list option" where
  "write_output writable filepath geobuffer_list =
     (if writable filepath then Some (map entry_line geobuffer_list) else None)"

text \<open>
  What one click on the run button ends in: one of the message boxes, the file written, or
  an exception that nothing catches.
\<close>

datatype outcome =
    WarnNoInput
  | WarnNoOutput
  | ErrorChunkSize
  | ErrorNoData
  | InfoNoMatch
  | Success string "string list"
  | ErrorWrite
  | Uncaught py_error

record gui =
  input_file_var :: string
  output_file_var :: string
  chunk_size_var :: string
  add_geobuffer0_var :: bool

text \<open>The part of \<open>run_processing\<close> after the analysis.\<close>

definition emit :: "(string \<Rightarrow> bool) \<Rightarrow> gui \<Rightarrow> geobuffer list \<Rightarrow> outcome" where
  "emit writable g computed =
     (let geobuffer_list = add_geobuffer0 (add_geobuffer0_var g) computed in
      if geobuffer_list = [] then InfoNoMatch
      else (case write_output writable (output_file_var g) geobuffer_list of
              Some text \<Rightarrow> Success (output_file_var g) text
            | None \<Rightarrow> ErrorWrite))"

definition run_processing :: "(string \<Rightarrow> string list option) \<Rightarrow> (string \<Rightarrow> bool)
    \<Rightarrow> (int, category) pydict \<Rightarrow> gui \<Rightarrow> outcome" where
  "run_processing fs writable conversion_map g =
     (if input_file_var g = [] then WarnNoInput
      else if output_file_var g = [] then WarnNoOutput
      else (case py_int (chunk_size_var g) of
        None \<Rightarrow> ErrorChunkSize
      | Some chunk_size \<Rightarrow>
         (case parse_level_file fs (input_file_var g) of
            Inl e \<Rightarrow> Uncaught e
          | Inr level_rows \<Rightarrow>
             if level_rows = [] then ErrorNoData
             else (case analyze_chunks level_rows chunk_size conversion_map of
                     Inl e \<Rightarrow> Uncaught e
                   | Inr max_counts \<Rightarrow>
                       emit writable g (generate_geobuffer_list conversion_map max_counts)))))"


section \<open>What the window analyzer is to compute\<close>

text \<open>
  The number of occurrences of the id \<open>i\<close> among the cells of the block of \<open>W\<close> rows that
  starts at row \<open>s\<close>, and the maximum of that number over the start positions \<open>0\<close> to
  \<open>L - W\<close>; with \<open>L < W\<close> there is no window and the value is \<open>0\<close>.
\<close>

definition block_count :: "int list list \<Rightarrow> nat \<Rightarrow> nat \<Rightarrow> int \<Rightarrow> int" where
  "block_count rows W s i = int (count_list (concat (take W (drop s rows))) i)"

definition window_max :: "int list list \<Rightarrow> nat \<Rightarrow> int \<Rightarrow> int" where
  "window_max rows W i =
     (if length rows < W then 0
      else Max ((\<lambda>s. block_count rows W s i) ` {0 .. length rows - W}))"


section \<open>What the row parser is to accept\<close>



section \<open>What the aggregator is to compute\<close>

text \<open>
  The total of a category: the sum of the max counts of the ids that the mapping table
  sends to the category, an id with no positive count adding nothing. The second sum is
  the plain sum of the max counts of those ids, a missing count being \<open>0\<close>.
\<close>

definition category_total :: "(int, category) pydict \<Rightarrow> (int, int) pydict \<Rightarrow> category \<Rightarrow> int" where
  "category_total conv_map max_counts c =
     sum_list (map (\<lambda>entry. dict_get max_counts (fst entry) 0)
       (filter (\<lambda>entry. snd entry = c \<and> 0 < dict_get max_counts (fst entry) 0) conv_map))"

definition plain_total :: "(int, category) pydict \<Rightarrow> (int, int) pydict \<Rightarrow> category \<Rightarrow> int" where
  "plain_total conv_map max_counts c =
     sum_list (map (\<lambda>entry. if snd entry = c then dict_get max_counts (fst entry) 0 else 0) conv_map)"

text \<open>A list without the later occurrences of its elements: the order of first occurrence.\<close>

definition first_seen :: "'a list \<Rightarrow> 'a list" where
  "first_seen xs = rev (remdups (rev xs))"

text \<open>The categories the fold touches, in the order of the fold.\<close>

definition touched :: "(int, category) pydict \<Rightarrow> (int, int) pydict \<Rightarrow> category list" where
  "touched conv_map max_counts =
     map snd (filter (\<lambda>entry. 0 < dict_get max_counts (fst entry) 0) conv_map)"


section \<open>The worked example\<close>

text \<open>
  C8. For the grid \<open>[[1,1,1,1,1],[2,2,2,2,2],[1,1,1,1,1]]\<close>, the mapping
  \<open>{1:(0,0), 2:(1,0)}\<close> and window size 2 the analyzer returns \<open>{1:5, 2:5}\<close>, and the
  aggregator then returns \<open>[(0,0,5), (1,0,5)]\<close>.
\<close>

theorem example_end_to_end:
  "analyze_chunks [[1,1,1,1,1],[2,2,2,2,2],[1,1,1,1,1]] 2 [(1, (0,0)), (2, (1,0))]
     = Inr [(1, 5), (2, 5)]
   \<and> generate_geobuffer_list [(1, (0,0)), (2, (1,0))] [(1, 5), (2, 5)] = [(0,0,5), (1,0,5)]"
  by code_simp


section \<open>Facts about dicts\<close>

lemma map_of_dict_set: "map_of (dict_set k v d) = (map_of d)(k \<mapsto> v)"
  by (induction d) (auto simp: fun_eq_iff)

lemma keys_dict_set:
  "map fst (dict_set k v d) = (if k \<in> set (map fst d) then map fst d else map fst d @ [k])"
  by (induction d) (force split: if_splits)+


lemma distinct_dict_set: "distinct (map fst d) \<Longrightarrow> distinct (map fst (dict_set k v d))"
  by (simp add: keys_dict_set)

lemma map_of_set_all:
  "map_of (foldl (\<lambda>m k. dict_set k v m) d ks) x = (if x \<in> set ks then Some v else map_of d x)"
  by (induction ks arbitrary: d) (auto simp: map_of_dict_set)





section \<open>The roller override as a whole-group reassignment\<close>




section \<open>The roller override without a usable configuration\<close>

lemma roller_entries_unusable:
  "\<forall>entry \<in> set entries. \<not> usable entry \<Longrightarrow> roller_entries rm entries = Inr rm"
  by (induction entries arbitrary: rm)
     (auto simp: usable_def split: option.splits to_value.splits)

text \<open>
  With no roller file at all \<open>roller_mappings\<close> is empty. A primary table that maps the
  roller id 41 to \<open>(1, 1)\<close> is then overwritten by the start-up call
  \<open>apply_roller_mapping("Default")\<close>: 41 is mapped to \<open>(24, 4)\<close>, and the seven other
  roller ids, which the primary table does not mention, get entries of their own.
\<close>

theorem roller_absent_counterexample:
  "load_roller_mappings (load_rm_data Map.empty rm_filenames) = Inr []
   \<and> map_of (load_conversion_map [([41], (1, 1))]) 41 = Some (1, 1)
   \<and> apply_roller_mapping [] ''Default'' (load_conversion_map [([41], (1, 1))])
       = [(41, (24, 4)), (42, (24, 4)), (43, (24, 4)), (44, (24, 4)),
          (579, (24, 4)), (580, (24, 4)), (587, (24, 4)), (588, (24, 4))]"
  by (simp add: load_roller_mappings_def rm_filenames_def load_conversion_map_def
      apply_roller_mapping_def roller_choice_def dict_get_def ROLLER_IDS_def Let_def)

text \<open>
  C3, as the code has it. When the roller configuration is absent (no file could be loaded)
  or every entry of it is skipped by the loader, \<open>roller_mappings\<close> is empty, and applying
  a roller override with any selection maps each of the eight roller ids to the hardcoded
  fallback category \<open>(24, 4)\<close>, whatever the primary table assigned; the keys of the table
  afterwards are its former keys together with all roller ids.
\<close>

theorem roller_absent_fallback:
  assumes "rm_data = None \<or> (\<exists>entries. rm_data = Some entries \<and> (\<forall>entry \<in> set entries. \<not> usable entry))"
  shows "load_roller_mappings rm_data = Inr []
    \<and> (\<forall>id_val \<in> set ROLLER_IDS.
          map_of (apply_roller_mapping [] selection conversion_map) id_val = Some (24, 4))
    \<and> set (dict_keys (apply_roller_mapping [] selection conversion_map))
        = set (dict_keys conversion_map) \<union> set ROLLER_IDS"
proof -
  have load: "load_roller_mappings rm_data = Inr []"
    using assms by (auto simp: load_roller_mappings_def roller_entries_unusable)
  have app: "apply_roller_mapping [] selection conversion_map
      = foldl (\<lambda>m k. dict_set k (24, 4) m) conversion_map ROLLER_IDS"
    by (simp add: apply_roller_mapping_def roller_choice_def dict_get_def)
  have hit: "\<forall>id_val \<in> set ROLLER_IDS.
      map_of (apply_roller_mapping [] selection conversion_map) id_val = Some (24, 4)"
    by (simp add: app map_of_set_all)
  have "dom (map_of (apply_roller_mapping [] selection conversion_map))
      = dom (map_of conversion_map) \<union> set ROLLER_IDS"
    unfolding app by (auto simp: map_of_set_all dom_def split: if_splits)
  then have keys: "set (dict_keys (apply_roller_mapping [] selection conversion_map))
      = set (dict_keys conversion_map) \<union> set ROLLER_IDS"
    by (simp add: dom_map_of_conv_image_fst dict_keys_def)
  from load hit keys show ?thesis by blast
qed

theorem roller_absent_fallback_witness:
  "load_roller_mappings (Some [\<lparr>entry_name = None, entry_to = ToList [30, 2]\<rparr>]) = Inr []
   \<and> 41 \<in> set ROLLER_IDS
   \<and> map_of (apply_roller_mapping [] ''Fast'' [(41, (1, 1))]) 41 = Some (24, 4)"
proof -
  have u: "\<forall>entry \<in> set [\<lparr>entry_name = None, entry_to = ToList [30, 2]\<rparr>]. \<not> usable entry"
    by (simp add: usable_def)
  have a: "41 \<in> set ROLLER_IDS"
    by (simp add: ROLLER_IDS_def)
  from roller_absent_fallback[of "Some [\<lparr>entry_name = None, entry_to = ToList [30, 2]\<rparr>]" "''Fast''" "[(41, (1, 1))]"] u a
  show ?thesis by blast
qed


section \<open>The window analyzer computes the per-window maximum\<close>

lemma dict_has_iff: "dict_has d k = (k \<in> set (dict_keys d))"
  by (simp add: dict_has_def dict_keys_def map_of_eq_None_iff)

lemma dict_get_dict_set:
  "dict_get (dict_set k v d) i dflt = (if i = k then v else dict_get d i dflt)"
  by (simp add: dict_get_def map_of_dict_set)

lemma dict_get_absent: "i \<notin> set (map fst d) \<Longrightarrow> dict_get d i dflt = dflt"
  by (simp add: dict_get_def map_of_eq_None_iff[THEN iffD2])

lemma set_keys_dict_set: "fst ` set (dict_set k v d) = insert k (fst ` set d)"
  using keys_dict_set[of k v d] by (metis (no_types, lifting) insert_absorb list.set_map list.simps(15) rotate1.simps(2) set_rotate1)

lemma dict_get_empty: "dict_get [] i dflt = dflt"
  by (simp add: dict_get_def)

subsection \<open>The frequency table of one window\<close>

lemma freq_row_get:
  "dict_get (foldl (freq_item cm) f row) i 0
     = dict_get f i 0 + (if dict_has cm i then int (count_list row i) else 0)"
  by (induction row arbitrary: f) (auto simp: freq_item_def dict_get_dict_set)

lemma freq_item_keys:
  "fst ` set (freq_item cm f a) = fst ` set f \<union> (if dict_has cm a then {a} else {})"
  by (simp add: freq_item_def set_keys_dict_set)

lemma freq_row_keys:
  "fst ` set (foldl (freq_item cm) f row) = fst ` set f \<union> {i \<in> set row. dict_has cm i}"
proof (induction row arbitrary: f)
  case Nil
  then show ?case by simp
next
  case (Cons a row)
  have "fst ` set (foldl (freq_item cm) (freq_item cm f a) row)
      = (fst ` set f \<union> (if dict_has cm a then {a} else {})) \<union> {i \<in> set row. dict_has cm i}"
    by (simp only: Cons.IH freq_item_keys)
  also have "\<dots> = fst ` set f \<union> {i \<in> set (a # row). dict_has cm i}"
    by auto
  finally show ?case by simp
qed

lemma freq_row_distinct:
  "distinct (map fst f) \<Longrightarrow> distinct (map fst (foldl (freq_item cm) f row))"
  by (induction row arbitrary: f) (auto simp: freq_item_def distinct_dict_set)

lemma freq_rows_get:
  "dict_get (foldl (foldl (freq_item cm)) f window) i 0
     = dict_get f i 0 + (if dict_has cm i then int (count_list (concat window) i) else 0)"
  by (induction window arbitrary: f) (auto simp: freq_row_get)

lemma freq_rows_keys:
  "fst ` set (foldl (foldl (freq_item cm)) f window)
     = fst ` set f \<union> {i \<in> set (concat window). dict_has cm i}"
proof (induction window arbitrary: f)
  case Nil
  then show ?case by simp
next
  case (Cons r window)
  have "fst ` set (foldl (foldl (freq_item cm)) (foldl (freq_item cm) f r) window)
      = (fst ` set f \<union> {i \<in> set r. dict_has cm i}) \<union> {i \<in> set (concat window). dict_has cm i}"
    by (simp only: Cons.IH freq_row_keys)
  also have "\<dots> = fst ` set f \<union> {i \<in> set (concat (r # window)). dict_has cm i}"
    by auto
  finally show ?case by simp
qed

lemma freq_rows_distinct:
  "distinct (map fst f) \<Longrightarrow> distinct (map fst (foldl (foldl (freq_item cm)) f window))"
  by (induction window arbitrary: f) (auto simp: freq_row_distinct)

lemma window_freq_get:
  "dict_get (window_freq cm window) i 0
     = (if dict_has cm i then int (count_list (concat window) i) else 0)"
  by (simp add: window_freq_def freq_rows_get dict_get_empty)

lemma window_freq_keys:
  "fst ` set (window_freq cm window) = {i \<in> set (concat window). dict_has cm i}"
  by (simp add: window_freq_def freq_rows_keys)

lemma window_freq_distinct: "distinct (map fst (window_freq cm window))"
  by (simp add: window_freq_def freq_rows_distinct)

subsection \<open>Raising the running maxima\<close>

lemma update_max_ok:
  assumes "distinct (map fst items)" and "set (map fst items) \<subseteq> set (map fst mc)"
  shows "\<exists>mc'. update_max mc items = Inr mc' \<and> map fst mc' = map fst mc
           \<and> (\<forall>i m. map_of mc i = Some m \<longrightarrow> map_of mc' i = Some (max m (dict_get items i m)))"
  using assms
proof (induction items arbitrary: mc)
  case Nil
  then show ?case by (simp add: dict_get_def)
next
  case (Cons a items)
  obtain k c where a: "a = (k, c)" by (cases a)
  from Cons.prems a have kin: "k \<in> set (map fst mc)" by simp
  then obtain m0 where m0: "map_of mc k = Some m0"
    by (metis map_of_eq_None_iff not_Some_eq set_map)
  let ?mc1 = "if c > m0 then dict_set k c mc else mc"
  have keys1: "map fst ?mc1 = map fst mc"
    using kin by (simp add: keys_dict_set)
  have val1: "map_of ?mc1 = (map_of mc)(k \<mapsto> max m0 c)"
    using m0 by (auto simp: map_of_dict_set fun_eq_iff max_def)
  from Cons.prems a have d: "distinct (map fst items)" and knot: "k \<notin> set (map fst items)"
    and sub: "set (map fst items) \<subseteq> set (map fst ?mc1)"
    by (simp_all add: keys1 del: set_map)
  from Cons.IH[OF d sub] obtain mc' where
    r: "update_max ?mc1 items = Inr mc'" and keys: "map fst mc' = map fst ?mc1"
    and vals: "\<forall>i m. map_of ?mc1 i = Some m \<longrightarrow> map_of mc' i = Some (max m (dict_get items i m))"
    by blast
  have run: "update_max mc (a # items) = Inr mc'"
    using r m0 a by simp
  have "map_of mc' i = Some (max m (dict_get (a # items) i m))" if mi: "map_of mc i = Some m" for i m
  proof (cases "i = k")
    case True
    with mi m0 have mm: "m = m0" by simp
    from True val1 have "map_of ?mc1 i = Some (max m0 c)" by simp
    with vals have "map_of mc' i = Some (max (max m0 c) (dict_get items i (max m0 c)))" by blast
    moreover have "dict_get items i (max m0 c) = max m0 c"
      using knot True by (simp add: dict_get_absent)
    moreover have "dict_get (a # items) i m = c"
      using a True by (simp add: dict_get_def)
    ultimately show ?thesis using mm by simp
  next
    case False
    with val1 mi have "map_of ?mc1 i = Some m" by simp
    with vals have "map_of mc' i = Some (max m (dict_get items i m))" by blast
    moreover have "dict_get (a # items) i m = dict_get items i m"
      using a False by (simp add: dict_get_def)
    ultimately show ?thesis by simp
  qed
  with run keys keys1 show ?case by auto
qed


subsection \<open>The loop over the windows\<close>

lemma dict_get_default_max:
  "(0::int) \<le> m \<Longrightarrow> max m (dict_get d i m) = max m (dict_get d i 0)"
  by (simp add: dict_get_def split: option.splits)

lemma map_of_keys_Some: "i \<in> fst ` set d \<Longrightarrow> \<exists>v. map_of d i = Some v"
  by (metis map_of_eq_None_iff not_Some_eq)

lemma slide_ok:
  assumes "fst ` set cm \<subseteq> fst ` set mc"
    and "\<forall>i m. map_of mc i = Some m \<longrightarrow> 0 \<le> m"
  shows "\<exists>mc'. slide cm rows W mc starts = Inr mc' \<and> map fst mc' = map fst mc
    \<and> (\<forall>i m. map_of mc i = Some m \<longrightarrow>
          map_of mc' i = Some (foldl max m
            (map (\<lambda>s. dict_get (window_freq cm (py_slice rows s (s + W))) i 0) starts)))"
  using assms
proof (induction starts arbitrary: mc)
  case Nil
  then show ?case by simp
next
  case (Cons s starts)
  let ?freq = "window_freq cm (py_slice rows s (s + W))"
  have "fst ` set ?freq \<subseteq> fst ` set cm"
    by (auto simp: window_freq_keys dict_has_iff dict_keys_def)
  with Cons.prems(1) have sub: "set (map fst ?freq) \<subseteq> set (map fst mc)"
    by auto
  from update_max_ok[OF window_freq_distinct sub] obtain mc1 where
    u: "update_max mc ?freq = Inr mc1" and k1: "map fst mc1 = map fst mc"
    and v1: "\<forall>i m. map_of mc i = Some m \<longrightarrow> map_of mc1 i = Some (max m (dict_get ?freq i m))"
    by blast
  have keys_eq: "fst ` set mc1 = fst ` set mc"
    using k1 by (metis list.set_map)
  have sub1: "fst ` set cm \<subseteq> fst ` set mc1"
    using Cons.prems(1) keys_eq by simp
  have nn1: "\<forall>i m. map_of mc1 i = Some m \<longrightarrow> 0 \<le> m"
  proof (intro allI impI)
    fix i m1 assume a: "map_of mc1 i = Some m1"
    then have "i \<in> fst ` set mc" using keys_eq by (metis map_of_SomeD fst_conv image_eqI)
    then obtain m where m: "map_of mc i = Some m" using map_of_keys_Some by metis
    with v1 a have "m1 = max m (dict_get ?freq i m)" by auto
    moreover from m Cons.prems(2) have "0 \<le> m" by blast
    ultimately show "0 \<le> m1" by simp
  qed
  from Cons.IH[OF sub1 nn1] obtain mc' where
    r: "slide cm rows W mc1 starts = Inr mc'" and k: "map fst mc' = map fst mc1"
    and v: "\<forall>i m. map_of mc1 i = Some m \<longrightarrow>
          map_of mc' i = Some (foldl max m
            (map (\<lambda>s. dict_get (window_freq cm (py_slice rows s (s + W))) i 0) starts))"
    by blast
  have run: "slide cm rows W mc (s # starts) = Inr mc'"
    using u r by simp
  have "map_of mc' i = Some (foldl max m
      (map (\<lambda>s. dict_get (window_freq cm (py_slice rows s (s + W))) i 0) (s # starts)))"
    if m: "map_of mc i = Some m" for i m
  proof -
    from m Cons.prems(2) have "0 \<le> m" by blast
    then have "max m (dict_get ?freq i m) = max m (dict_get ?freq i 0)"
      by (rule dict_get_default_max)
    with v1 m have "map_of mc1 i = Some (max m (dict_get ?freq i 0))" by simp
    with v show ?thesis by simp
  qed
  with run k k1 show ?case by auto
qed

lemma distinct_set_all:
  "distinct (map fst d) \<Longrightarrow> distinct (map fst (foldl (\<lambda>m k. dict_set k v m) d ks))"
  by (induction ks arbitrary: d) (auto simp: distinct_dict_set)

lemma zero_counts_map_of:
  "map_of (zero_counts cm) i = (if i \<in> fst ` set cm then Some 0 else None)"
  by (simp add: zero_counts_def dict_keys_def map_of_set_all)

lemma zero_counts_keys: "fst ` set (zero_counts cm) = fst ` set cm"
proof -
  have "dom (map_of (zero_counts cm)) = fst ` set cm"
    by (auto simp: zero_counts_map_of dom_def)
  then show ?thesis by (simp add: dom_map_of_conv_image_fst)
qed

lemma zero_counts_distinct: "distinct (map fst (zero_counts cm))"
  by (simp add: zero_counts_def distinct_set_all)

lemma foldl_max_Max: "foldl max (a::int) xs = Max (insert a (set xs))"
proof (induction xs arbitrary: a)
  case Nil
  then show ?case by simp
next
  case (Cons x xs)
  have "Max (insert (max a x) (set xs)) = Max (insert a (insert x (set xs)))"
    by (cases "set xs = {}") (simp_all add: max.assoc)
  with Cons show ?case by simp
qed

lemma py_slice_block:
  "0 \<le> W \<Longrightarrow> int s + W \<le> int (length rows) \<Longrightarrow>
   py_slice rows (int s) (int s + W) = take (nat W) (drop s rows)"
  by (simp add: py_slice_def Let_def min_def)

text \<open>
  The analysis returns a table for every integer window size: \<open>max_counts[item_id]\<close>
  never raises, since every key of a frequency table is a key of \<open>conv_map\<close>.
\<close>

lemma analyze_chunks_result:
  "\<exists>mc. analyze_chunks rows W cm = Inr mc \<and> map fst mc = map fst (zero_counts cm)
    \<and> (\<forall>i. i \<in> fst ` set cm \<longrightarrow>
          map_of mc i = Some (foldl max 0
            (map (\<lambda>s. dict_get (window_freq cm (py_slice rows s (s + W))) i 0)
               (py_range (int (length rows) - W + 1)))))"
proof -
  have a: "fst ` set cm \<subseteq> fst ` set (zero_counts cm)"
    by (simp add: zero_counts_keys)
  have b: "\<forall>i m. map_of (zero_counts cm) i = Some m \<longrightarrow> 0 \<le> m"
    by (simp add: zero_counts_map_of split: if_splits)
  from slide_ok[OF a b, of rows W "py_range (int (length rows) - W + 1)"]
  obtain mc where r: "slide cm rows W (zero_counts cm) (py_range (int (length rows) - W + 1)) = Inr mc"
    and k: "map fst mc = map fst (zero_counts cm)"
    and v: "\<forall>i m. map_of (zero_counts cm) i = Some m \<longrightarrow>
          map_of mc i = Some (foldl max m
            (map (\<lambda>s. dict_get (window_freq cm (py_slice rows s (s + W))) i 0)
               (py_range (int (length rows) - W + 1))))"
    by blast
  have "analyze_chunks rows W cm = Inr mc"
    using r by (simp add: analyze_chunks_def Let_def)
  moreover have "\<forall>i. i \<in> fst ` set cm \<longrightarrow>
          map_of mc i = Some (foldl max 0
            (map (\<lambda>s. dict_get (window_freq cm (py_slice rows s (s + W))) i 0)
               (py_range (int (length rows) - W + 1))))"
    using v by (simp add: zero_counts_map_of)
  ultimately show ?thesis using k by blast
qed


subsection \<open>The result of the analysis\<close>

lemma Max_insert_zero:
  assumes "finite S" and "S \<noteq> {}" and "\<forall>x \<in> S. (0::int) \<le> x"
  shows "Max (insert 0 S) = Max S"
proof -
  have "Max (insert 0 S) = max 0 (Max S)"
    using assms by simp
  moreover have "0 \<le> Max S"
    using assms by (meson Max_in)
  ultimately show ?thesis by simp
qed

text \<open>
  The window size is a Python integer, and nothing keeps a negative one from the analysis.
  With two rows of 1s, the mapping \<open>{1:(0,0)}\<close> and window size \<open>-1\<close> the loop runs over the
  start positions 0 to 3; the slice \<open>rows[0:-1]\<close> is the first row, the other slices are
  empty, and the result is \<open>{1:5}\<close>. No block of rows has \<open>-1\<close> rows, and the maximum
  over blocks without rows is \<open>0\<close>.
\<close>

theorem analyze_chunks_negative_counterexample:
  "analyze_chunks [[1,1,1,1,1],[1,1,1,1,1]] (- 1) [(1, (0, 0))] = Inr [(1, 5)]
   \<and> window_max [[1,1,1,1,1],[1,1,1,1,1]] (nat (- 1)) 1 = 0"
  by code_simp

text \<open>
  C1, as the code has it. For every grid of \<open>L\<close> rows, every integer window size \<open>W\<close> and
  every mapping table, \<open>analyze_chunks\<close> returns a table and raises nothing, and the keys
  of the table are exactly the ids of the mapping table, each once. For every \<open>W \<ge> 0\<close> the
  value of each id is the maximum, over the blocks of \<open>W\<close> rows starting at the positions
  \<open>0\<close> to \<open>L - W\<close>, of the number of occurrences of the id among the cells of the block
  (\<open>window_max\<close>); and when \<open>L < W\<close> every value is \<open>0\<close>.
\<close>

theorem analyze_chunks_window_maximum:
  "\<exists>mc. analyze_chunks rows W cm = Inr mc
    \<and> set (dict_keys mc) = set (dict_keys cm)
    \<and> distinct (dict_keys mc)
    \<and> (0 \<le> W \<longrightarrow> (\<forall>i \<in> set (dict_keys cm). map_of mc i = Some (window_max rows (nat W) i)))
    \<and> (int (length rows) < W \<longrightarrow> (\<forall>i \<in> set (dict_keys cm). map_of mc i = Some 0))"
proof -
  let ?L = "length rows"
  let ?g = "\<lambda>i s. dict_get (window_freq cm (py_slice rows s (s + W))) i 0"
  from analyze_chunks_result[of rows W cm] obtain mc where
    r: "analyze_chunks rows W cm = Inr mc" and k: "map fst mc = map fst (zero_counts cm)"
    and v: "\<forall>i. i \<in> fst ` set cm \<longrightarrow>
      map_of mc i = Some (foldl max 0 (map (?g i) (py_range (int ?L - W + 1))))"
    by blast
  have keys: "set (dict_keys mc) = set (dict_keys cm)"
    using k zero_counts_keys[of cm] by (simp add: dict_keys_def)
  have dist: "distinct (dict_keys mc)"
    using k zero_counts_distinct[of cm] by (simp add: dict_keys_def)
  have val: "map_of mc i = Some (window_max rows (nat W) i)"
    if nonneg: "0 \<le> W" and i: "i \<in> set (dict_keys cm)" for i
  proof (cases "int ?L < W")
    case True
    then have "py_range (int ?L - W + 1) = []"
      by (simp add: py_range_def)
    moreover from True nonneg have "?L < nat W" by linarith
    ultimately show ?thesis
      using v i by (simp add: dict_keys_def window_max_def)
  next
    case False
    define K where "K = ?L - nat W"
    from False nonneg have le: "nat W \<le> ?L" by linarith
    have n: "nat (int ?L - W + 1) = Suc K"
      using le nonneg unfolding K_def by linarith
    have has: "dict_has cm i"
      using i by (simp add: dict_has_iff)
    have g: "?g i (int s) = block_count rows (nat W) s i" if "s \<le> K" for s
    proof -
      from that le nonneg have "int s + W \<le> int ?L"
        unfolding K_def by linarith
      then show ?thesis
        using nonneg has by (simp add: py_slice_block window_freq_get block_count_def)
    qed
    have "set (map (?g i) (py_range (int ?L - W + 1))) = (\<lambda>s. ?g i (int s)) ` {0..K}"
      by (simp only: py_range_def n set_map set_upt image_image atLeastLessThanSuc_atLeastAtMost)
    also have "\<dots> = (\<lambda>s. block_count rows (nat W) s i) ` {0..K}"
      by (rule image_cong) (simp_all add: g)
    finally have img: "set (map (?g i) (py_range (int ?L - W + 1)))
        = (\<lambda>s. block_count rows (nat W) s i) ` {0..K}" .
    have "foldl max 0 (map (?g i) (py_range (int ?L - W + 1)))
        = Max (insert 0 ((\<lambda>s. block_count rows (nat W) s i) ` {0..K}))"
      by (simp only: foldl_max_Max img)
    also have "\<dots> = Max ((\<lambda>s. block_count rows (nat W) s i) ` {0..K})"
      by (rule Max_insert_zero) (simp_all add: block_count_def)
    also have "\<dots> = window_max rows (nat W) i"
      using le by (simp add: window_max_def K_def)
    finally show ?thesis
      using v i by (simp add: dict_keys_def)
  qed
  have vals: "0 \<le> W \<longrightarrow> (\<forall>i \<in> set (dict_keys cm). map_of mc i = Some (window_max rows (nat W) i))"
    using val by blast
  have none: "int ?L < W \<longrightarrow> (\<forall>i \<in> set (dict_keys cm). map_of mc i = Some 0)"
  proof
    assume lt: "int ?L < W"
    then have "0 \<le> W" and "?L < nat W" by linarith+
    then show "\<forall>i \<in> set (dict_keys cm). map_of mc i = Some 0"
      using val by (simp add: window_max_def)
  qed
  from r keys dist vals none show ?thesis by blast
qed

theorem analyze_chunks_window_maximum_witness:
  "(0::int) \<le> 2 \<and> (1::int) \<in> set (dict_keys [(1, (0::int, 0::int)), (2, (1, 0))])
   \<and> analyze_chunks [[1,1,1,1,1],[2,2,2,2,2],[1,1,1,1,1]] 2 [(1, (0,0)), (2, (1,0))] = Inr [(1, 5), (2, 5)]
   \<and> window_max [[1,1,1,1,1],[2,2,2,2,2],[1,1,1,1,1]] (nat 2) 1 = 5
   \<and> int (length [[1,1,1,1,1::int]]) < 2
   \<and> analyze_chunks [[1,1,1,1,1]] 2 [(1, (0,0)), (2, (1,0))] = Inr [(1, 0), (2, 0)]"
proof -
  let ?rows = "[[1,1,1,1,1],[2,2,2,2,2],[1,1,1,1,1::int]]"
  let ?cm = "[(1::int, (0::int, 0::int)), (2, (1,0))]"
  have h: "(0::int) \<le> 2" by simp
  have i: "1 \<in> set (dict_keys ?cm)"
    by (simp add: dict_keys_def)
  have e: "analyze_chunks ?rows 2 ?cm = Inr [(1, 5), (2, 5)]"
    by code_simp
  from analyze_chunks_window_maximum[of ?rows 2 ?cm]
  obtain mc where t: "analyze_chunks ?rows 2 ?cm = Inr mc
    \<and> set (dict_keys mc) = set (dict_keys ?cm)
    \<and> distinct (dict_keys mc)
    \<and> (0 \<le> (2::int) \<longrightarrow> (\<forall>i \<in> set (dict_keys ?cm). map_of mc i = Some (window_max ?rows (nat 2) i)))
    \<and> (int (length ?rows) < 2 \<longrightarrow> (\<forall>i \<in> set (dict_keys ?cm). map_of mc i = Some 0))" ..
  from t have r: "analyze_chunks ?rows 2 ?cm = Inr mc"
    by (rule conjunct1)
  from t have "0 \<le> (2::int) \<longrightarrow> (\<forall>i \<in> set (dict_keys ?cm). map_of mc i = Some (window_max ?rows (nat 2) i))"
    by (elim conjE)
  with h have v: "\<forall>i \<in> set (dict_keys ?cm). map_of mc i = Some (window_max ?rows (nat 2) i)"
    by (rule rev_mp)
  from r e have mc: "mc = [(1, 5), (2, 5)]" by simp
  from v i have "map_of mc 1 = Some (window_max ?rows (nat 2) 1)"
    by (rule bspec)
  then have w: "window_max ?rows (nat 2) 1 = 5"
    unfolding mc by simp
  have s: "int (length [[1,1,1,1,1::int]]) < 2" by simp
  have z: "analyze_chunks [[1,1,1,1,1]] 2 ?cm = Inr [(1, 0), (2, 0)]"
    by code_simp
  from h i e w s z show ?thesis by (intro conjI)
qed


section \<open>The pipeline: \<open>run_processing\<close>\<close>

lemma emit_not_chunk_error: "emit writable g computed \<noteq> ErrorChunkSize"
  by (simp add: emit_def Let_def split: option.splits)

lemma preset_not_empty: "PRESET_GEOBUFFER0 \<noteq> []"
  by (simp add: PRESET_GEOBUFFER0_def)

lemma emit_empty_iff:
  "(emit writable g computed = InfoNoMatch) = (\<not> add_geobuffer0_var g \<and> computed = [])"
  by (auto simp: emit_def Let_def add_geobuffer0_def preset_not_empty write_output_def
      split: option.splits)

lemma run_processing_analysis:
  assumes "input_file_var g \<noteq> []" and "output_file_var g \<noteq> []"
    and "py_int (chunk_size_var g) = Some chunk_size"
    and "fs (input_file_var g) = Some lines" and "parse_lines lines \<noteq> []"
  shows "\<exists>max_counts. analyze_chunks (parse_lines lines) chunk_size cm = Inr max_counts
    \<and> run_processing fs writable cm g = emit writable g (generate_geobuffer_list cm max_counts)"
proof -
  from analyze_chunks_result[of "parse_lines lines" chunk_size cm]
  obtain mc where mc: "analyze_chunks (parse_lines lines) chunk_size cm = Inr mc"
    by blast
  then have "run_processing fs writable cm g = emit writable g (generate_geobuffer_list cm mc)"
    using assms by (simp add: run_processing_def parse_level_file_def)
  with mc show ?thesis by blast
qed

text \<open>
  \<open>run_processing\<close> has no test of the sign of the window size. With two valid rows and
  the mapping \<open>{1:(0,0)}\<close>, the input \<open>-1\<close> runs the analysis and writes the line
  \<open>0,0,5\<close> (the only non-empty slice is \<open>rows[0:-1]\<close>, the first row); the input \<open>0\<close>
  runs the analysis too and ends in the empty-result message.
\<close>

theorem window_size_counterexample:
  "run_processing (map_of [(''in'', [''1,1,1,1,1'', ''1,1,1,1,1''])]) (\<lambda>p. True) [(1, (0, 0))]
     \<lparr>input_file_var = ''in'', output_file_var = ''out'', chunk_size_var = ''-1'',
      add_geobuffer0_var = False\<rparr>
     = Success ''out'' [''0,0,5'' @ [CHR 0x0A]]
   \<and> run_processing (map_of [(''in'', [''1,1,1,1,1'', ''1,1,1,1,1''])]) (\<lambda>p. True) [(1, (0, 0))]
     \<lparr>input_file_var = ''in'', output_file_var = ''out'', chunk_size_var = ''0'',
      add_geobuffer0_var = False\<rparr>
     = InfoNoMatch"
  by code_simp

text \<open>
  C2, as the code has it. With both file names chosen, the run ends in the chunk-size error
  exactly when \<open>int\<close> rejects the text of the window size, whatever the files hold: the
  error comes before the file is read. For every text that \<open>int\<close> accepts, positive, zero
  or negative, and every input file with at least one valid row, the analysis runs,
  returns a table, and the run goes on with the aggregator's list.
\<close>

theorem window_size_check:
  assumes "input_file_var g \<noteq> []" and "output_file_var g \<noteq> []"
  shows "(run_processing fs writable cm g = ErrorChunkSize) = (py_int (chunk_size_var g) = None)
    \<and> (\<forall>chunk_size lines.
          py_int (chunk_size_var g) = Some chunk_size \<and> fs (input_file_var g) = Some lines
            \<and> parse_lines lines \<noteq> [] \<longrightarrow>
          (\<exists>max_counts. analyze_chunks (parse_lines lines) chunk_size cm = Inr max_counts
            \<and> run_processing fs writable cm g
                = emit writable g (generate_geobuffer_list cm max_counts)))"
proof -
  have a: "(run_processing fs writable cm g = ErrorChunkSize) = (py_int (chunk_size_var g) = None)"
    using assms
    by (auto simp: run_processing_def parse_level_file_def emit_not_chunk_error
        split: option.splits sum.splits)
  have b: "\<forall>chunk_size lines.
          py_int (chunk_size_var g) = Some chunk_size \<and> fs (input_file_var g) = Some lines
            \<and> parse_lines lines \<noteq> [] \<longrightarrow>
          (\<exists>max_counts. analyze_chunks (parse_lines lines) chunk_size cm = Inr max_counts
            \<and> run_processing fs writable cm g
                = emit writable g (generate_geobuffer_list cm max_counts))"
    using run_processing_analysis[OF assms] by blast
  from a b show ?thesis by (rule conjI)
qed

theorem window_size_check_witness:
  "input_file_var \<lparr>input_file_var = ''in'', output_file_var = ''out'', chunk_size_var = ''2.5'',
      add_geobuffer0_var = True\<rparr> \<noteq> []
   \<and> output_file_var \<lparr>input_file_var = ''in'', output_file_var = ''out'', chunk_size_var = ''2.5'',
      add_geobuffer0_var = True\<rparr> \<noteq> []
   \<and> py_int ''2.5'' = None
   \<and> run_processing Map.empty (\<lambda>p. True) [(1, (0, 0))]
       \<lparr>input_file_var = ''in'', output_file_var = ''out'', chunk_size_var = ''2.5'',
        add_geobuffer0_var = True\<rparr> = ErrorChunkSize
   \<and> py_int [CHR 0x1C, CHR ''1''] = None
   \<and> run_processing (map_of [(''in'', [''1,1,1,1,1''])]) (\<lambda>p. True) [(1, (0, 0))]
       \<lparr>input_file_var = ''in'', output_file_var = ''out'', chunk_size_var = [CHR 0x1C, CHR ''1''],
        add_geobuffer0_var = True\<rparr> = ErrorChunkSize"
proof -
  let ?g = "\<lparr>input_file_var = ''in'', output_file_var = ''out'', chunk_size_var = ''2.5'',
      add_geobuffer0_var = True\<rparr>"
  let ?g' = "\<lparr>input_file_var = ''in'', output_file_var = ''out'',
      chunk_size_var = [CHR 0x1C, CHR ''1''], add_geobuffer0_var = True\<rparr>"
  have i: "input_file_var ?g \<noteq> []" and out: "output_file_var ?g \<noteq> []"
    by simp_all
  have i': "input_file_var ?g' \<noteq> []" and out': "output_file_var ?g' \<noteq> []"
    by simp_all
  have p: "py_int ''2.5'' = None"
    by code_simp
  have p': "py_int [CHR 0x1C, CHR ''1''] = None"
    by code_simp
  from window_size_check[OF i out, of Map.empty "\<lambda>p. True" "[(1, (0, 0))]"] p
  have e: "run_processing Map.empty (\<lambda>p. True) [(1, (0, 0))] ?g = ErrorChunkSize"
    by simp
  from window_size_check[OF i' out', of "map_of [(''in'', [''1,1,1,1,1''])]" "\<lambda>p. True" "[(1, (0, 0))]"] p'
  have e': "run_processing (map_of [(''in'', [''1,1,1,1,1''])]) (\<lambda>p. True) [(1, (0, 0))] ?g'
      = ErrorChunkSize"
    by simp
  from i out p e p' e' show ?thesis by (intro conjI)
qed

text \<open>
  C10. With the preset enabled no run ends in the empty-result message: the list is tested
  for emptiness after the preset has been put in front. A run that reaches the aggregator
  and gets the empty list from it writes, when the output file can be written, exactly the
  lines of the preset entries. So the empty-result message needs the preset disabled, and
  the witness shows a run with the preset disabled that ends in it.
\<close>

theorem preset_never_empty:
  assumes "add_geobuffer0_var g"
  shows "run_processing fs writable cm g \<noteq> InfoNoMatch
    \<and> (input_file_var g \<noteq> [] \<and> output_file_var g \<noteq> []
         \<and> py_int (chunk_size_var g) = Some chunk_size \<and> fs (input_file_var g) = Some lines
         \<and> parse_lines lines \<noteq> []
         \<and> analyze_chunks (parse_lines lines) chunk_size cm = Inr max_counts
         \<and> generate_geobuffer_list cm max_counts = []
         \<and> writable (output_file_var g) \<longrightarrow>
       run_processing fs writable cm g
         = Success (output_file_var g) (map entry_line PRESET_GEOBUFFER0))"
proof -
  have e: "emit writable g computed \<noteq> InfoNoMatch" for computed
    using assms by (simp add: emit_empty_iff)
  have a: "run_processing fs writable cm g \<noteq> InfoNoMatch"
    by (simp add: run_processing_def e split: option.splits sum.splits)
  have b: "run_processing fs writable cm g
         = Success (output_file_var g) (map entry_line PRESET_GEOBUFFER0)"
    if "input_file_var g \<noteq> []" "output_file_var g \<noteq> []"
       "py_int (chunk_size_var g) = Some chunk_size" "fs (input_file_var g) = Some lines"
       "parse_lines lines \<noteq> []"
       "analyze_chunks (parse_lines lines) chunk_size cm = Inr max_counts"
       "generate_geobuffer_list cm max_counts = []" "writable (output_file_var g)"
    using that assms
    by (simp add: run_processing_def parse_level_file_def emit_def Let_def add_geobuffer0_def
        preset_not_empty write_output_def)
  from a b show ?thesis by blast
qed

theorem preset_never_empty_witness:
  "add_geobuffer0_var \<lparr>input_file_var = ''in'', output_file_var = ''out'', chunk_size_var = ''1'',
      add_geobuffer0_var = True\<rparr>
   \<and> generate_geobuffer_list [(2, (0, 0))] [(2, 0)] = []
   \<and> run_processing (map_of [(''in'', [''1,1,1,1,1''])]) (\<lambda>p. True) [(2, (0, 0))]
       \<lparr>input_file_var = ''in'', output_file_var = ''out'', chunk_size_var = ''1'',
        add_geobuffer0_var = True\<rparr>
       = Success ''out'' (map entry_line PRESET_GEOBUFFER0)
   \<and> run_processing (map_of [(''in'', [''1,1,1,1,1''])]) (\<lambda>p. True) [(2, (0, 0))]
       \<lparr>input_file_var = ''in'', output_file_var = ''out'', chunk_size_var = ''1'',
        add_geobuffer0_var = False\<rparr>
       = InfoNoMatch"
proof -
  let ?g = "\<lparr>input_file_var = ''in'', output_file_var = ''out'', chunk_size_var = ''1'',
      add_geobuffer0_var = True\<rparr>"
  let ?fs = "map_of [(''in'', [''1,1,1,1,1''])]"
  have h: "add_geobuffer0_var ?g" by simp
  have p: "py_int (chunk_size_var ?g) = Some 1" by code_simp
  have f: "?fs (input_file_var ?g) = Some [''1,1,1,1,1'']" by simp
  have l: "parse_lines [''1,1,1,1,1''] = [[1, 1, 1, 1, 1]]" by code_simp
  have a: "analyze_chunks (parse_lines [''1,1,1,1,1'']) 1 [(2, (0, 0))] = Inr [(2, 0)]"
    unfolding l by code_simp
  have e: "generate_geobuffer_list [(2, (0, 0))] [(2, 0)] = []" by code_simp
  have "run_processing ?fs (\<lambda>p. True) [(2, (0, 0))] ?g
      = Success (output_file_var ?g) (map entry_line PRESET_GEOBUFFER0)"
    using preset_never_empty[OF h, where fs = ?fs and writable = "\<lambda>p. True" and cm = "[(2, (0, 0))]"
        and chunk_size = 1 and lines = "[''1,1,1,1,1'']" and max_counts = "[(2, 0)]"]
      p f l a e by simp
  then have s: "run_processing ?fs (\<lambda>p. True) [(2, (0, 0))] ?g
      = Success ''out'' (map entry_line PRESET_GEOBUFFER0)"
    by simp
  have n: "run_processing ?fs (\<lambda>p. True) [(2, (0, 0))]
       \<lparr>input_file_var = ''in'', output_file_var = ''out'', chunk_size_var = ''1'',
        add_geobuffer0_var = False\<rparr> = InfoNoMatch"
    by code_simp
  from h e s n show ?thesis by (intro conjI)
qed


section \<open>The preset in the output\<close>

text \<open>
  \<open>PRESET_GEOBUFFER0\<close> has 59 entries: with the preset enabled and the computed result
  \<open>[(5,0,3)]\<close> the list has 60 entries and the 60th is the computed one, and the file
  written has 60 lines, the 60th being \<open>5,0,3\<close>.
\<close>

theorem preset_counterexample:
  "length (add_geobuffer0 True [(5, 0, 3)]) = 60 \<and> add_geobuffer0 True [(5, 0, 3)] ! 59 = (5, 0, 3)
   \<and> emit (\<lambda>p. True)
        \<lparr>input_file_var = ''in'', output_file_var = ''out'', chunk_size_var = ''1'',
         add_geobuffer0_var = True\<rparr> [(5, 0, 3)]
       = Success ''out'' (map entry_line PRESET_GEOBUFFER0 @ [''5,0,3'' @ [CHR 0x0A]])
   \<and> length (map entry_line PRESET_GEOBUFFER0 @ [''5,0,3'' @ [CHR 0x0A]]) = 60"
proof -
  have n: "length PRESET_GEOBUFFER0 = 59"
    by (simp add: PRESET_GEOBUFFER0_def)
  have l: "entry_line (5, 0, 3) = ''5,0,3'' @ [CHR 0x0A]"
    by code_simp
  have a: "length (add_geobuffer0 True [(5, 0, 3)]) = 60"
    by (simp add: add_geobuffer0_def n)
  have b: "add_geobuffer0 True [(5, 0, 3)] ! 59 = (5, 0, 3)"
    by (simp add: add_geobuffer0_def nth_append n)
  have c: "emit (\<lambda>p. True)
        \<lparr>input_file_var = ''in'', output_file_var = ''out'', chunk_size_var = ''1'',
         add_geobuffer0_var = True\<rparr> [(5, 0, 3)]
       = Success ''out'' (map entry_line PRESET_GEOBUFFER0 @ [''5,0,3'' @ [CHR 0x0A]])"
    by (simp add: emit_def Let_def add_geobuffer0_def write_output_def l preset_not_empty)
  have d: "length (map entry_line PRESET_GEOBUFFER0 @ [''5,0,3'' @ [CHR 0x0A]]) = 60"
    by (simp add: n)
  from a b c d show ?thesis by (intro conjI)
qed

text \<open>
  C4, as the code has it. \<open>PRESET_GEOBUFFER0\<close> is a fixed list of 59 literal entries. With
  the preset enabled and an output file that can be written, the run writes the lines of
  the preset entries, as written and in their order, followed by the lines of the
  aggregator's entries in the aggregator's order: nothing is sorted again, dropped or
  merged after the preset has been put in front.
\<close>

theorem preset_prepended:
  assumes "add_geobuffer0_var g" and "writable (output_file_var g)"
  shows "length PRESET_GEOBUFFER0 = 59
    \<and> emit writable g computed
        = Success (output_file_var g) (map entry_line (PRESET_GEOBUFFER0 @ computed))
    \<and> (input_file_var g \<noteq> [] \<and> output_file_var g \<noteq> []
         \<and> py_int (chunk_size_var g) = Some chunk_size \<and> fs (input_file_var g) = Some lines
         \<and> parse_lines lines \<noteq> []
         \<and> analyze_chunks (parse_lines lines) chunk_size cm = Inr max_counts \<longrightarrow>
       run_processing fs writable cm g
         = Success (output_file_var g)
             (map entry_line (PRESET_GEOBUFFER0 @ generate_geobuffer_list cm max_counts)))"
proof -
  have n: "length PRESET_GEOBUFFER0 = 59"
    by (simp add: PRESET_GEOBUFFER0_def)
  have e: "emit writable g xs = Success (output_file_var g) (map entry_line (PRESET_GEOBUFFER0 @ xs))"
    for xs
    using assms
    by (simp add: emit_def Let_def add_geobuffer0_def write_output_def preset_not_empty)
  have r: "run_processing fs writable cm g
         = Success (output_file_var g)
             (map entry_line (PRESET_GEOBUFFER0 @ generate_geobuffer_list cm max_counts))"
    if "input_file_var g \<noteq> []" "output_file_var g \<noteq> []"
       "py_int (chunk_size_var g) = Some chunk_size" "fs (input_file_var g) = Some lines"
       "parse_lines lines \<noteq> []"
       "analyze_chunks (parse_lines lines) chunk_size cm = Inr max_counts"
    using that by (simp add: run_processing_def parse_level_file_def e)
  from n e[of computed] r show ?thesis by blast
qed

theorem preset_prepended_witness:
  "add_geobuffer0_var \<lparr>input_file_var = ''in'', output_file_var = ''out'', chunk_size_var = ''1'',
      add_geobuffer0_var = True\<rparr>
   \<and> generate_geobuffer_list [(9, (5, 0))] [(9, 3)] = [(5, 0, 3)]
   \<and> run_processing (map_of [(''in'', [''9,9,1,9,1''])]) (\<lambda>p. True) [(9, (5, 0))]
       \<lparr>input_file_var = ''in'', output_file_var = ''out'', chunk_size_var = ''1'',
        add_geobuffer0_var = True\<rparr>
       = Success ''out'' (map entry_line (PRESET_GEOBUFFER0 @ [(5, 0, 3)]))"
proof -
  let ?g = "\<lparr>input_file_var = ''in'', output_file_var = ''out'', chunk_size_var = ''1'',
      add_geobuffer0_var = True\<rparr>"
  let ?fs = "map_of [(''in'', [''9,9,1,9,1''])]"
  have h: "add_geobuffer0_var ?g" by simp
  have w: "(\<lambda>p. True) (output_file_var ?g)" by simp
  have i: "input_file_var ?g \<noteq> []" and out: "output_file_var ?g \<noteq> []" by simp_all
  have p: "py_int (chunk_size_var ?g) = Some 1" by code_simp
  have f: "?fs (input_file_var ?g) = Some [''9,9,1,9,1'']" by simp
  have l: "parse_lines [''9,9,1,9,1''] = [[9, 9, 1, 9, 1]]" by code_simp
  then have ne: "parse_lines [''9,9,1,9,1''] \<noteq> []" by simp
  have a: "analyze_chunks (parse_lines [''9,9,1,9,1'']) 1 [(9, (5, 0))] = Inr [(9, 3)]"
    unfolding l by code_simp
  have e: "generate_geobuffer_list [(9, (5, 0))] [(9, 3)] = [(5, 0, 3)]" by code_simp
  note t = preset_prepended[OF h w, where fs = ?fs and cm = "[(9, (5, 0))]"
      and chunk_size = 1 and lines = "[''9,9,1,9,1'']" and max_counts = "[(9, 3)]"
      and computed = "[]", THEN conjunct2, THEN conjunct2]
  from t i out p f ne a have "run_processing ?fs (\<lambda>p. True) [(9, (5, 0))] ?g
      = Success (output_file_var ?g)
          (map entry_line (PRESET_GEOBUFFER0 @ generate_geobuffer_list [(9, (5, 0))] [(9, 3)]))"
    by blast
  then have s: "run_processing ?fs (\<lambda>p. True) [(9, (5, 0))] ?g
      = Success ''out'' (map entry_line (PRESET_GEOBUFFER0 @ [(5, 0, 3)]))"
    unfolding e by simp
  from h e s show ?thesis by (intro conjI)
qed


section \<open>The row parser keeps whole rows only\<close>













section \<open>The aggregator folds the counts into category totals\<close>

lemma geo_step_unfold:
  "geo_step mc g (level_id, cat) =
     (if 0 < dict_get mc level_id 0
      then dict_set cat (dict_get g cat 0 + dict_get mc level_id 0) g else g)"
  by (cases cat) (simp add: geo_step_def Let_def)

lemma category_total_Nil: "category_total [] mc c = 0"
  by (simp add: category_total_def)

lemma category_total_Cons:
  "category_total ((level_id, cat) # cm) mc c =
     (if cat = c \<and> 0 < dict_get mc level_id 0 then dict_get mc level_id 0 else 0)
       + category_total cm mc c"
  by (simp add: category_total_def)

lemma geo_fold_get:
  "dict_get (foldl (geo_step mc) g cm) c 0 = dict_get g c 0 + category_total cm mc c"
proof (induction cm arbitrary: g)
  case Nil
  then show ?case by (simp add: category_total_Nil)
next
  case (Cons e cm)
  obtain level_id cat where e: "e = (level_id, cat)" by (metis surj_pair)
  show ?case
    unfolding e foldl_Cons Cons.IH category_total_Cons geo_step_unfold
    by (simp add: dict_get_dict_set)
qed

lemma dict_set_entries: "set (dict_set k v d) \<subseteq> insert (k, v) (set d)"
  by (induction d) (auto split: if_splits)

lemma geo_step_positive:
  assumes "\<forall>e \<in> set g. 0 < snd e"
  shows "\<forall>e \<in> set (geo_step mc g entry). 0 < snd e"
proof -
  obtain level_id cat where entry: "entry = (level_id, cat)" by (metis surj_pair)
  show ?thesis
  proof (cases "0 < dict_get mc level_id 0")
    case True
    have nn: "0 \<le> dict_get g cat 0"
    proof (cases "map_of g cat")
      case None
      then show ?thesis by (simp add: dict_get_def)
    next
      case (Some v)
      then have "(cat, v) \<in> set g" by (rule map_of_SomeD)
      with assms have "0 < v" by fastforce
      with Some show ?thesis by (simp add: dict_get_def)
    qed
    have sub: "set (geo_step mc g entry)
        \<subseteq> insert (cat, dict_get g cat 0 + dict_get mc level_id 0) (set g)"
      unfolding entry geo_step_unfold using True by (simp add: dict_set_entries)
    show ?thesis
    proof
      fix e' assume "e' \<in> set (geo_step mc g entry)"
      with sub have "e' = (cat, dict_get g cat 0 + dict_get mc level_id 0) \<or> e' \<in> set g"
        by blast
      then show "0 < snd e'"
      proof
        assume "e' = (cat, dict_get g cat 0 + dict_get mc level_id 0)"
        with nn True show ?thesis by simp
      next
        assume "e' \<in> set g"
        with assms show ?thesis by blast
      qed
    qed
  next
    case False
    then show ?thesis unfolding entry geo_step_unfold using assms by simp
  qed
qed

lemma geo_fold_positive:
  "\<forall>e \<in> set g. 0 < snd e \<Longrightarrow> \<forall>e \<in> set (foldl (geo_step mc) g cm). 0 < snd e"
proof (induction cm arbitrary: g)
  case Nil
  then show ?case by simp
next
  case (Cons e cm)
  from geo_step_positive[OF Cons.prems] have "\<forall>e' \<in> set (geo_step mc g e). 0 < snd e'" .
  from Cons.IH[OF this] show ?case by simp
qed

lemma geo_step_distinct: "distinct (map fst g) \<Longrightarrow> distinct (map fst (geo_step mc g entry))"
proof -
  assume d: "distinct (map fst g)"
  obtain level_id cat where entry: "entry = (level_id, cat)" by (metis surj_pair)
  show ?thesis
    unfolding entry geo_step_unfold using d by (simp add: distinct_dict_set)
qed

lemma geo_fold_distinct:
  "distinct (map fst g) \<Longrightarrow> distinct (map fst (foldl (geo_step mc) g cm))"
  by (induction cm arbitrary: g) (simp_all add: geo_step_distinct)

lemma geo_dict_positive: "\<forall>e \<in> set (geo_dict_of cm mc). 0 < snd e"
  unfolding geo_dict_of_def by (rule geo_fold_positive) simp

lemma geo_dict_distinct: "distinct (map fst (geo_dict_of cm mc))"
  unfolding geo_dict_of_def by (rule geo_fold_distinct) simp

lemma geo_dict_lookup:
  "map_of (geo_dict_of cm mc) c
     = (if 0 < category_total cm mc c then Some (category_total cm mc c) else None)"
proof (cases "map_of (geo_dict_of cm mc) c")
  case None
  then have "dict_get (geo_dict_of cm mc) c 0 = 0"
    by (simp add: dict_get_def)
  then have "category_total cm mc c = 0"
    by (simp add: geo_dict_of_def geo_fold_get dict_get_empty)
  with None show ?thesis by simp
next
  case (Some v)
  then have "(c, v) \<in> set (geo_dict_of cm mc)"
    by (rule map_of_SomeD)
  with geo_dict_positive[of cm mc] have "0 < v" by fastforce
  moreover from Some have "dict_get (geo_dict_of cm mc) c 0 = v"
    by (simp add: dict_get_def)
  then have "category_total cm mc c = v"
    by (simp add: geo_dict_of_def geo_fold_get dict_get_empty)
  ultimately show ?thesis using Some by simp
qed

lemma category_total_mset:
  "category_total cm mc c =
     sum_mset (image_mset (\<lambda>entry. dict_get mc (fst entry) 0)
       (filter_mset (\<lambda>entry. snd entry = c \<and> 0 < dict_get mc (fst entry) 0) (mset cm)))"
proof -
  let ?f = "\<lambda>entry. dict_get mc (fst entry) 0"
  let ?P = "\<lambda>entry. snd entry = c \<and> 0 < dict_get mc (fst entry) 0"
  have "sum_list (map ?f (filter ?P cm)) = sum_mset (mset (map ?f (filter ?P cm)))"
    by (simp only: sum_mset_sum_list)
  also have "\<dots> = sum_mset (image_mset ?f (filter_mset ?P (mset cm)))"
    by (simp only: mset_map mset_filter)
  finally show ?thesis by (simp only: category_total_def)
qed

lemma category_total_perm: "mset cm' = mset cm \<Longrightarrow> category_total cm' mc c = category_total cm mc c"
  by (simp add: category_total_mset)

lemma dict_get_nonneg:
  "\<forall>e \<in> set mc. 0 \<le> snd e \<Longrightarrow> (0::int) \<le> dict_get mc k 0"
  by (auto simp: dict_get_def split: option.splits dest!: map_of_SomeD)

lemma category_total_plain:
  assumes "\<forall>e \<in> set mc. 0 \<le> snd e"
  shows "category_total cm mc c = plain_total cm mc c"
proof (induction cm)
  case Nil
  then show ?case by (simp add: category_total_def plain_total_def)
next
  case (Cons e cm)
  obtain level_id cat where e: "e = (level_id, cat)" by (metis surj_pair)
  have "0 \<le> dict_get mc level_id 0"
    using assms by (rule dict_get_nonneg)
  then have "(if cat = c \<and> 0 < dict_get mc level_id 0 then dict_get mc level_id 0 else 0)
      = (if cat = c then dict_get mc level_id 0 else 0)"
    by simp
  moreover have "plain_total (e # cm) mc c
      = (if cat = c then dict_get mc level_id 0 else 0) + plain_total cm mc c"
    by (simp add: plain_total_def e)
  ultimately show ?case
    unfolding e category_total_Cons using Cons.IH by simp
qed


lemma geo_entries_member: "((x, y, z) \<in> set (geo_entries g)) = (((x, y), z) \<in> set g)"
  by (force simp: geo_entries_def)

lemma generate_member:
  "((x, y, z) \<in> set (generate_geobuffer_list cm mc))
     = (0 < category_total cm mc (x, y) \<and> z = category_total cm mc (x, y))"
proof -
  have "((x, y, z) \<in> set (generate_geobuffer_list cm mc)) = (((x, y), z) \<in> set (geo_dict_of cm mc))"
    by (simp add: generate_geobuffer_list_def Let_def geo_entries_member)
  also have "\<dots> = (map_of (geo_dict_of cm mc) (x, y) = Some z)"
    using geo_dict_distinct[of cm mc] by simp
  also have "\<dots> = (0 < category_total cm mc (x, y) \<and> z = category_total cm mc (x, y))"
    by (auto simp: geo_dict_lookup)
  finally show ?thesis .
qed

lemma generate_distinct: "distinct (generate_geobuffer_list cm mc)"
proof -
  have "distinct (map fst (geo_dict_of cm mc))"
    by (rule geo_dict_distinct)
  then have d: "distinct (geo_dict_of cm mc)"
    by (simp add: distinct_map)
  have "inj_on (\<lambda>((x, y), z). (x, y, z)) (set (geo_dict_of cm mc))"
    by (auto simp: inj_on_def)
  with d have "distinct (geo_entries (geo_dict_of cm mc))"
    by (simp add: geo_entries_def distinct_map)
  then show ?thesis
    by (simp add: generate_geobuffer_list_def Let_def)
qed

lemma generate_perm:
  assumes "mset cm' = mset cm"
  shows "mset (generate_geobuffer_list cm' mc) = mset (generate_geobuffer_list cm mc)"
proof -
  have "(e \<in> set (generate_geobuffer_list cm' mc)) = (e \<in> set (generate_geobuffer_list cm mc))" for e
  proof -
    obtain x y z where e: "e = (x, y, z)" by (metis prod_cases3)
    show ?thesis
      unfolding e generate_member by (simp only: category_total_perm[OF assms])
  qed
  then have "set (generate_geobuffer_list cm' mc) = set (generate_geobuffer_list cm mc)"
    by blast
  with generate_distinct[of cm' mc] generate_distinct[of cm mc] show ?thesis
    by (simp only: set_eq_iff_mset_eq_distinct)
qed

text \<open>
  C5. The totals do not depend on the order in which the ids are folded: for any
  reordering of the entries of the mapping table, the aggregator's dict holds for a
  category its total (\<open>category_total\<close>) when that is positive and no entry otherwise, so
  the dicts of the two orders agree on every category. The list the aggregator returns
  has the entry \<open>(x, y, z)\<close> exactly when the total of \<open>(x, y)\<close> is positive and \<open>z\<close> is that
  total, and the lists of the two orders have the same entries, each once. For a max-count
  table of non-negative counts the total is the plain sum of the max counts of the ids
  mapped to the category, an id with count \<open>0\<close> adding nothing. No entry of the output list
  has a count that is not positive.
\<close>

theorem aggregator_totals_order_independent:
  assumes "mset cm' = mset cm"
  shows "map_of (geo_dict_of cm' mc) c
        = (if 0 < category_total cm mc c then Some (category_total cm mc c) else None)
    \<and> map_of (geo_dict_of cm' mc) = map_of (geo_dict_of cm mc)
    \<and> (((x, y, z) \<in> set (generate_geobuffer_list cm' mc))
         = (0 < category_total cm mc (x, y) \<and> z = category_total cm mc (x, y)))
    \<and> mset (generate_geobuffer_list cm' mc) = mset (generate_geobuffer_list cm mc)
    \<and> ((\<forall>e \<in> set mc. 0 \<le> snd e) \<longrightarrow> category_total cm mc c = plain_total cm mc c)
    \<and> (\<forall>e \<in> set (generate_geobuffer_list cm' mc). 0 < snd (snd e))"
proof -
  have t: "category_total cm' mc k = category_total cm mc k" for k
    using assms by (rule category_total_perm)
  have a: "map_of (geo_dict_of cm' mc) c
        = (if 0 < category_total cm mc c then Some (category_total cm mc c) else None)"
    by (simp only: geo_dict_lookup t)
  have b: "map_of (geo_dict_of cm' mc) = map_of (geo_dict_of cm mc)"
  proof
    fix k show "map_of (geo_dict_of cm' mc) k = map_of (geo_dict_of cm mc) k"
      by (simp only: geo_dict_lookup t)
  qed
  have m: "((x, y, z) \<in> set (generate_geobuffer_list cm' mc))
         = (0 < category_total cm mc (x, y) \<and> z = category_total cm mc (x, y))"
    by (simp only: generate_member t)
  have q: "mset (generate_geobuffer_list cm' mc) = mset (generate_geobuffer_list cm mc)"
    using assms by (rule generate_perm)
  have p: "(\<forall>e \<in> set mc. 0 \<le> snd e) \<longrightarrow> category_total cm mc c = plain_total cm mc c"
    using category_total_plain by blast
  have z: "\<forall>e \<in> set (generate_geobuffer_list cm' mc). 0 < snd (snd e)"
  proof
    fix e assume "e \<in> set (generate_geobuffer_list cm' mc)"
    then have "e \<in> set (geo_entries (geo_dict_of cm' mc))"
      by (simp add: generate_geobuffer_list_def Let_def)
    then obtain d where d: "d \<in> set (geo_dict_of cm' mc)" and e: "e = (fst (fst d), snd (fst d), snd d)"
      by (auto simp: geo_entries_def)
    from geo_dict_positive d have "0 < snd d" by blast
    with e show "0 < snd (snd e)" by simp
  qed
  from a b m q p z show ?thesis by (intro conjI)
qed

theorem aggregator_totals_order_independent_witness:
  "mset [(4, (3, 1)), (7, (2, 4)), (1, (3, 1))] = mset [(1, (3::int, 1::int)), (4::int, (3, 1)), (7, (2, 4))]
   \<and> category_total [(1, (3, 1)), (4, (3, 1)), (7, (2, 4))] [(1, 2), (4, 7), (7, 0)] (3, 1) = 9
   \<and> map_of (geo_dict_of [(4, (3, 1)), (7, (2, 4)), (1, (3, 1))] [(1, 2), (4, 7), (7, 0)]) (3, 1) = Some 9
   \<and> map_of (geo_dict_of [(4, (3, 1)), (7, (2, 4)), (1, (3, 1))] [(1, 2), (4, 7), (7, 0)]) (2, 4) = None
   \<and> (3, 1, 9) \<in> set (generate_geobuffer_list [(4, (3, 1)), (7, (2, 4)), (1, (3, 1))] [(1, 2), (4, 7), (7, 0)])
   \<and> (2, 4, 0) \<notin> set (generate_geobuffer_list [(4, (3, 1)), (7, (2, 4)), (1, (3, 1))] [(1, 2), (4, 7), (7, 0)])
   \<and> generate_geobuffer_list [(4, (3, 1)), (7, (2, 4)), (1, (3, 1))] [(1, 2), (4, 7), (7, 0)] = [(3, 1, 9)]
   \<and> generate_geobuffer_list [(1, (3, 1)), (4, (3, 1)), (7, (2, 4))] [(1, 2), (4, 7), (7, 0)] = [(3, 1, 9)]"
proof -
  let ?cm = "[(1, (3::int, 1::int)), (4::int, (3, 1)), (7, (2, 4))]"
  let ?cm' = "[(4, (3::int, 1::int)), (7::int, (2, 4)), (1, (3, 1))]"
  let ?mc = "[(1::int, 2::int), (4, 7), (7, 0)]"
  have h: "mset ?cm' = mset ?cm" by simp
  have t1: "category_total ?cm ?mc (3, 1) = 9" by code_simp
  have t2: "category_total ?cm ?mc (2, 4) = 0" by code_simp
  note a = aggregator_totals_order_independent[OF h, of ?mc, THEN conjunct1]
  note m1 = aggregator_totals_order_independent[OF h, where mc = ?mc and x = 3 and y = 1 and z = 9,
      THEN conjunct2, THEN conjunct2, THEN conjunct1]
  note m2 = aggregator_totals_order_independent[OF h, where mc = ?mc and x = 2 and y = 4 and z = 0,
      THEN conjunct2, THEN conjunct2, THEN conjunct1]
  from a[of "(3, 1)"] t1 have r1: "map_of (geo_dict_of ?cm' ?mc) (3, 1) = Some 9" by simp
  from a[of "(2, 4)"] t2 have r2: "map_of (geo_dict_of ?cm' ?mc) (2, 4) = None" by simp
  from m1 t1 have g1: "(3, 1, 9) \<in> set (generate_geobuffer_list ?cm' ?mc)" by simp
  from m2 t2 have g2: "(2, 4, 0) \<notin> set (generate_geobuffer_list ?cm' ?mc)" by simp
  have o1: "generate_geobuffer_list ?cm' ?mc = [(3, 1, 9)]" by code_simp
  have o2: "generate_geobuffer_list ?cm ?mc = [(3, 1, 9)]" by code_simp
  from h t1 r1 r2 g1 g2 o1 o2 show ?thesis by (intro conjI)
qed


section \<open>The order of the aggregator's output\<close>

lemma geo_step_keys:
  "map fst (geo_step mc g (level_id, cat)) =
     (if 0 < dict_get mc level_id 0
      then (if cat \<in> set (map fst g) then map fst g else map fst g @ [cat])
      else map fst g)"
  by (simp only: geo_step_unfold keys_dict_set split: if_splits) simp

lemma geo_fold_keys:
  "map fst (foldl (geo_step mc) g cm)
     = foldl (\<lambda>acc c. if c \<in> set acc then acc else acc @ [c]) (map fst g) (touched cm mc)"
proof (induction cm arbitrary: g)
  case Nil
  then show ?case by (simp add: touched_def)
next
  case (Cons e cm)
  obtain level_id cat where e: "e = (level_id, cat)" by (metis surj_pair)
  have t: "touched (e # cm) mc
      = (if 0 < dict_get mc level_id 0 then cat # touched cm mc else touched cm mc)"
    by (simp add: touched_def e)
  show ?case
    unfolding foldl_Cons Cons.IH t
    unfolding e geo_step_keys
    by simp
qed

lemma first_seen_snoc:
  "first_seen (xs @ [x]) = (if x \<in> set xs then first_seen xs else first_seen xs @ [x])"
  by (simp add: first_seen_def)

lemma set_first_seen: "set (first_seen xs) = set xs"
  by (simp add: first_seen_def)

lemma foldl_first_seen:
  "foldl (\<lambda>acc c. if c \<in> set acc then acc else acc @ [c]) [] xs = first_seen xs"
proof (induction xs rule: rev_induct)
  case Nil
  then show ?case by (simp add: first_seen_def)
next
  case (snoc x xs)
  then show ?case by (simp add: first_seen_snoc set_first_seen)
qed

lemma geo_dict_keys: "map fst (geo_dict_of cm mc) = first_seen (touched cm mc)"
  by (simp add: geo_dict_of_def geo_fold_keys foldl_first_seen)

lemma geo_entries_keys: "map (\<lambda>e. (fst e, fst (snd e))) (geo_entries g) = map fst g"
  by (simp add: geo_entries_def split_beta)

lemma geo_entries_mem: "((x, y, z) \<in> set (geo_entries g)) = (((x, y), z) \<in> set g)"
  by (force simp: geo_entries_def)

text \<open>
  C6. The categories of the fold's entries, in the order of the fold, are the touched
  categories in the order of their first touch. The output list is a rearrangement of
  those entries; it has one entry for each category whose total is positive, with that
  total, and no other entry; it is sorted ascending by the category-x component; and for
  every value of category-x the entries with that value stand in the output in the order
  they have in the fold: the sort is stable and the category-y component is no sort key.
\<close>

theorem aggregator_output_sorted_stable:
  "map (\<lambda>e. (fst e, fst (snd e))) (geo_entries (geo_dict_of cm mc)) = first_seen (touched cm mc)
   \<and> mset (generate_geobuffer_list cm mc) = mset (geo_entries (geo_dict_of cm mc))
   \<and> distinct (map (\<lambda>e. (fst e, fst (snd e))) (generate_geobuffer_list cm mc))
   \<and> (((x, y, z) \<in> set (generate_geobuffer_list cm mc))
        = (0 < category_total cm mc (x, y) \<and> z = category_total cm mc (x, y)))
   \<and> sorted (map fst (generate_geobuffer_list cm mc))
   \<and> filter (\<lambda>e. fst e = k) (generate_geobuffer_list cm mc)
        = filter (\<lambda>e. fst e = k) (geo_entries (geo_dict_of cm mc))"
proof -
  let ?g = "geo_dict_of cm mc"
  let ?out = "generate_geobuffer_list cm mc"
  let ?cat = "\<lambda>e :: geobuffer. (fst e, fst (snd e))"
  have out: "?out = sort_key fst (geo_entries ?g)"
    by (simp add: generate_geobuffer_list_def Let_def)
  have order: "map ?cat (geo_entries ?g) = first_seen (touched cm mc)"
    by (simp only: geo_entries_keys geo_dict_keys)
  have perm: "mset ?out = mset (geo_entries ?g)"
    by (simp add: out)
  have "mset (map ?cat ?out) = mset (map ?cat (geo_entries ?g))"
    by (simp only: mset_map perm)
  then have "distinct (map ?cat ?out) = distinct (map ?cat (geo_entries ?g))"
    by (rule mset_eq_imp_distinct_iff)
  then have dist: "distinct (map ?cat ?out)"
    by (simp only: geo_entries_keys geo_dict_distinct)
  have "((x, y, z) \<in> set ?out) = (((x, y), z) \<in> set ?g)"
    by (simp add: out geo_entries_mem)
  also have "\<dots> = (map_of ?g (x, y) = Some z)"
    using geo_dict_distinct[of cm mc] by simp
  also have "\<dots> = (0 < category_total cm mc (x, y) \<and> z = category_total cm mc (x, y))"
    by (auto simp: geo_dict_lookup)
  finally have mem: "((x, y, z) \<in> set ?out)
      = (0 < category_total cm mc (x, y) \<and> z = category_total cm mc (x, y))" .
  have srt: "sorted (map fst ?out)"
    unfolding out by (rule sorted_sort_key)
  have stable: "filter (\<lambda>e. fst e = k) ?out = filter (\<lambda>e. fst e = k) (geo_entries ?g)"
    unfolding out by (rule sort_key_stable)
  from order perm dist mem srt stable show ?thesis by (intro conjI)
qed

theorem aggregator_output_sorted_stable_witness:
  "generate_geobuffer_list [(1, (3, 1)), (2, (3, 0)), (3, (1, 5)), (4, (3, 1))]
       [(1, 2), (2, 3), (3, 4), (4, 7)]
     = [(1, 5, 4), (3, 1, 9), (3, 0, 3)]
   \<and> geo_entries (geo_dict_of [(1, (3, 1)), (2, (3, 0)), (3, (1, 5)), (4, (3, 1))]
       [(1, 2), (2, 3), (3, 4), (4, 7)])
     = [(3, 1, 9), (3, 0, 3), (1, 5, 4)]
   \<and> filter (\<lambda>e. fst e = 3) (generate_geobuffer_list [(1, (3, 1)), (2, (3, 0)), (3, (1, 5)), (4, (3, 1))]
       [(1, 2), (2, 3), (3, 4), (4, 7)])
     = [(3, 1, 9), (3, 0, 3)]"
proof -
  let ?cm = "[(1::int, (3::int, 1::int)), (2, (3, 0)), (3, (1, 5)), (4, (3, 1))]"
  let ?mc = "[(1::int, 2::int), (2, 3), (3, 4), (4, 7)]"
  have o: "generate_geobuffer_list ?cm ?mc = [(1, 5, 4), (3, 1, 9), (3, 0, 3)]"
    by code_simp
  have g: "geo_entries (geo_dict_of ?cm ?mc) = [(3, 1, 9), (3, 0, 3), (1, 5, 4)]"
    by code_simp
  from aggregator_output_sorted_stable[of ?cm ?mc 3 1 9 3]
  have "filter (\<lambda>e. fst e = 3) (generate_geobuffer_list ?cm ?mc)
      = filter (\<lambda>e. fst e = 3) (geo_entries (geo_dict_of ?cm ?mc))"
    by (elim conjE)
  then have f: "filter (\<lambda>e. fst e = 3) (generate_geobuffer_list ?cm ?mc) = [(3, 1, 9), (3, 0, 3)]"
    unfolding g by simp
  from o g f show ?thesis by (intro conjI)
qed

end
